theory Spec2Isabelle
  imports Complex_Main "HOL-Library.Word" "HOL-Library.AList" "HOL-Library.Sublist"
begin

section \<open>images\_to\_pdf: a shallow embedding of \<open>src/images_to_pdf.py\<close>\<close>

text \<open>
  The script reads the images of a directory, adjusts brightness and contrast, stores the
  adjusted copies in a scratch directory, hands that directory to a PDF assembler and
  removes it again. The embedding keeps the source's function names. Exceptions are values
  of the type \<open>py_error\<close>; a function that touches the console or the file system takes
  the world and returns the outcome together with the new world.
\<close>

subsection \<open>Exceptions\<close>

datatype py_error =
    ZeroDivisionError
  | AttributeError
  | CvError
  | ValueError string
  | SystemExit int
  | EOFError
  | FileExistsError
  | FileNotFoundError
  | NotADirectoryError
  | IsADirectoryError
  | AssemblerError

subsection \<open>The libraries the script calls\<close>

text \<open>
  A pixel buffer is the list of its 8-bit samples, or Python's \<open>None\<close> (what
  \<open>cv2.imread\<close> returns for a file it cannot decode). The codec and the assembler are
  not part of the repository; what the script needs of them is a record of functions.
  Python's floats are idealised as rationals, and the rounding of a rational to an integer
  sample is left to the library (\<open>cv_round\<close>).
\<close>

type_synonym buffer = "8 word list"

record 'c externals =
  cv_round :: "rat \<Rightarrow> int"
  imdecode :: "'c \<Rightarrow> buffer option"
  imencode :: "string \<Rightarrow> buffer \<Rightarrow> 'c"
  img2pdf_convert :: "'c list \<Rightarrow> py_error + 'c"

definition saturate_cast :: "int \<Rightarrow> 8 word" where
  "saturate_cast v = word_of_int (max 0 (min 255 v))"

text \<open>
  Modelled from the spec: \<open>cv2.addWeighted\<close> is OpenCV's, not the repository's; the spec
  describes it as \<open>clamp(buffer*alpha + gamma)\<close> elementwise, saturating to \<open>[0,255]\<close>.
  The general form is \<open>src1*alpha + src2*beta + gamma\<close>; a \<open>None\<close> argument or two
  buffers of different sizes are an OpenCV error.
\<close>

definition weighted_sample :: "(rat \<Rightarrow> int) \<Rightarrow> rat \<Rightarrow> rat \<Rightarrow> rat \<Rightarrow> 8 word \<times> 8 word \<Rightarrow> 8 word" where
  "weighted_sample rnd alpha beta gamma p =
     saturate_cast (rnd (of_int (uint (fst p)) * alpha + of_int (uint (snd p)) * beta + gamma))"

definition addWeighted ::
  "(rat \<Rightarrow> int) \<Rightarrow> buffer option \<Rightarrow> rat \<Rightarrow> buffer option \<Rightarrow> rat \<Rightarrow> rat \<Rightarrow> py_error + buffer" where
  "addWeighted rnd src1 alpha src2 beta gamma =
     (case (src1, src2) of
        (Some a, Some b) \<Rightarrow>
          if length a = length b
          then Inr (map (weighted_sample rnd alpha beta gamma) (zip a b))
          else Inl CvError
      | _ \<Rightarrow> Inl CvError)"

text \<open>\<open>input_img.copy()\<close>: \<open>None\<close> has no method \<open>copy\<close>.\<close>

definition ndarray_copy :: "buffer option \<Rightarrow> py_error + buffer" where
  "ndarray_copy img = (case img of None \<Rightarrow> Inl AttributeError | Some a \<Rightarrow> Inr a)"

text \<open>Python's \<open>a / b\<close> on integers: a float, or \<open>ZeroDivisionError\<close>.\<close>

definition py_truediv :: "int \<Rightarrow> int \<Rightarrow> py_error + rat" where
  "py_truediv a b = (if b = 0 then Inl ZeroDivisionError else Inr (of_int a / of_int b))"

subsection \<open>The Tone Adjuster\<close>

definition apply_brightness_contrast ::
  "'c externals \<Rightarrow> buffer option \<Rightarrow> int \<Rightarrow> int \<Rightarrow> py_error + buffer" where
  "apply_brightness_contrast ext input_img brightness contrast =
     (case (if brightness \<noteq> 0
            then (let (shadow, highlight) =
                        (if brightness > 0 then (brightness, 255) else (0, 255 + brightness))
                  in case py_truediv (highlight - shadow) 255 of
                       Inl e \<Rightarrow> Inl e
                     | Inr alpha_b \<Rightarrow>
                         addWeighted (cv_round ext) input_img alpha_b input_img 0 (of_int shadow))
            else ndarray_copy input_img) of
        Inl e \<Rightarrow> Inl e
      | Inr buf \<Rightarrow>
          if contrast \<noteq> 0
          then (case py_truediv (131 * (contrast + 127)) (127 * (131 - contrast)) of
                  Inl e \<Rightarrow> Inl e
                | Inr f \<Rightarrow> addWeighted (cv_round ext) (Some buf) f (Some buf) 0 (127 * (1 - f)))
          else Inr buf)"

text \<open>
  The Tone Adjuster as the spec words it (section 4.1), for comparison with the code:
  \<open>clamp(buffer*alpha + gamma)\<close> elementwise, \<open>shadow = max(brightness,0)\<close>,
  \<open>highlight = 255 + min(brightness,0)\<close>, and the contrast factor \<open>f\<close>.
\<close>

definition spec_clamp :: "(rat \<Rightarrow> int) \<Rightarrow> rat \<Rightarrow> rat \<Rightarrow> buffer \<Rightarrow> buffer" where
  "spec_clamp rnd alpha gamma buf =
     map (\<lambda>v. saturate_cast (rnd (of_int (uint v) * alpha + gamma))) buf"

definition spec_adjust :: "(rat \<Rightarrow> int) \<Rightarrow> buffer \<Rightarrow> int \<Rightarrow> int \<Rightarrow> buffer" where
  "spec_adjust rnd buf brightness contrast =
     (let buf1 = (if brightness = 0 then buf
                  else (let shadow = max brightness 0;
                            highlight = 255 + min brightness 0
                        in spec_clamp rnd (of_int (highlight - shadow) / 255) (of_int shadow) buf))
      in if contrast = 0 then buf1
         else (let f = of_int (131 * (contrast + 127)) / of_int (127 * (131 - contrast))
               in spec_clamp rnd f (127 * (1 - f)) buf1))"

subsection \<open>Strings\<close>

text \<open>
  A character is a code point below 256. \<open>str.lower\<close> maps \<open>A\<close> to \<open>Z\<close> and the
  Latin-1 capitals \<open>0xC0\<close> to \<open>0xDE\<close> (but not the multiplication sign \<open>0xD7\<close>) to the
  letter 32 places further; \<open>str.strip\<close> removes the leading and trailing characters for
  which \<open>str.isspace\<close> holds: tab to carriage return, the four separators \<open>0x1c\<close> to
  \<open>0x1f\<close>, the space, the next-line control \<open>0x85\<close> and the no-break space \<open>0xA0\<close>.
\<close>

definition py_lower_char :: "char \<Rightarrow> char" where
  "py_lower_char c =
     (if ((65::nat) \<le> of_char c \<and> of_char c \<le> (90::nat))
         \<or> ((192::nat) \<le> of_char c \<and> of_char c \<le> (222::nat) \<and> of_char c \<noteq> (215::nat))
      then char_of (of_char c + (32::nat)) else c)"

definition py_lower :: "string \<Rightarrow> string" where
  "py_lower s = map py_lower_char s"

definition py_isspace :: "char \<Rightarrow> bool" where
  "py_isspace c \<longleftrightarrow>
     ((9::nat) \<le> of_char c \<and> of_char c \<le> (13::nat))
     \<or> ((28::nat) \<le> of_char c \<and> of_char c \<le> (32::nat))
     \<or> of_char c = (133::nat) \<or> of_char c = (160::nat)"

definition py_strip :: "string \<Rightarrow> string" where
  "py_strip s = rev (dropWhile py_isspace (rev (dropWhile py_isspace s)))"

definition newline :: char where
  "newline = CHR 0x0A"

subsection \<open>\<open>get_img_name\<close>: the regular expression \<open>(.*)(\.png|\.jpg)$\<close>\<close>

text \<open>
  \<open>re.search\<close> tries the start positions from the left. At one start position the
  greedy group \<open>(.*)\<close> takes as many characters as it can, none of them a newline, and
  gives them back one at a time until the rest of the pattern matches. \<open>$\<close> matches at
  the end of the string and also just before a newline that ends the string.
\<close>

definition at_dollar :: "string \<Rightarrow> bool" where
  "at_dollar r \<longleftrightarrow> r = [] \<or> r = [newline]"

definition match_ext :: "string \<Rightarrow> bool" where
  "match_ext r \<longleftrightarrow> (take 4 r = ''.png'' \<or> take 4 r = ''.jpg'') \<and> at_dollar (drop 4 r)"

fun match_here :: "string \<Rightarrow> string option" where
  "match_here [] = (if match_ext [] then Some [] else None)"
| "match_here (c # cs) =
     (if c \<noteq> newline
      then (case match_here cs of
              Some g \<Rightarrow> Some (c # g)
            | None \<Rightarrow> if match_ext (c # cs) then Some [] else None)
      else (if match_ext (c # cs) then Some [] else None))"

fun re_search :: "string \<Rightarrow> string option" where
  "re_search [] = match_here []"
| "re_search (c # cs) =
     (case match_here (c # cs) of Some g \<Rightarrow> Some g | None \<Rightarrow> re_search cs)"

definition get_img_name :: "string \<Rightarrow> string option" where
  "get_img_name img_path = re_search img_path"

subsection \<open>Paths and the file system\<close>

text \<open>
  A path is the list of its components; the empty path is the root, which is always a
  directory. The file system is an association list from paths to nodes, and its order is
  the order in which a directory lists its entries.
\<close>

type_synonym path = "string list"

datatype 'c node = File 'c | Dir

type_synonym 'c filesystem = "(path \<times> 'c node) list"

definition lookup :: "'c filesystem \<Rightarrow> path \<Rightarrow> 'c node option" where
  "lookup fs p = (if p = [] then Some Dir else map_of fs p)"

definition path_exists :: "'c filesystem \<Rightarrow> path \<Rightarrow> bool" where
  "path_exists fs p \<longleftrightarrow> lookup fs p \<noteq> None"

definition is_dir :: "'c filesystem \<Rightarrow> path \<Rightarrow> bool" where
  "is_dir fs p \<longleftrightarrow> lookup fs p = Some Dir"

definition child_names :: "'c filesystem \<Rightarrow> path \<Rightarrow> string list" where
  "child_names fs d =
     remdups (map (\<lambda>e. last (fst e)) (filter (\<lambda>e. fst e \<noteq> [] \<and> butlast (fst e) = d) fs))"

definition iterdir :: "'c filesystem \<Rightarrow> path \<Rightarrow> py_error + string list" where
  "iterdir fs d =
     (case lookup fs d of
        Some Dir \<Rightarrow> Inr (child_names fs d)
      | Some (File c) \<Rightarrow> Inl NotADirectoryError
      | None \<Rightarrow> Inl FileNotFoundError)"

definition os_mkdir :: "'c filesystem \<Rightarrow> path \<Rightarrow> py_error + 'c filesystem" where
  "os_mkdir fs p =
     (if path_exists fs p then Inl FileExistsError
      else (case lookup fs (butlast p) of
              None \<Rightarrow> Inl FileNotFoundError
            | Some (File c) \<Rightarrow> Inl NotADirectoryError
            | Some Dir \<Rightarrow> Inr (AList.update p Dir fs)))"

text \<open>
  \<open>Path.mkdir(parents, exist_ok)\<close> as pathlib writes it: try \<open>os.mkdir\<close>; when the
  parent is missing and \<open>parents\<close> is set, make the parent and try again; any other
  error is swallowed only if \<open>exist_ok\<close> is set and the path is a directory.
\<close>

function path_mkdir :: "'c filesystem \<Rightarrow> path \<Rightarrow> bool \<Rightarrow> bool \<Rightarrow> py_error + 'c filesystem" where
  "path_mkdir fs p parents exist_ok =
     (case os_mkdir fs p of
        Inr fs' \<Rightarrow> Inr fs'
      | Inl e \<Rightarrow>
          if e = FileNotFoundError
          then (if \<not> parents \<or> p = []
                then Inl e
                else (case path_mkdir fs (butlast p) True True of
                        Inl e' \<Rightarrow> Inl e'
                      | Inr fs1 \<Rightarrow> path_mkdir fs1 p False exist_ok))
          else (if \<not> exist_ok \<or> \<not> is_dir fs p then Inl e else Inr fs))"
  by pat_completeness auto
termination
  by (relation "measures [\<lambda>(fs, p, parents, exist_ok). length p,
                          \<lambda>(fs, p, parents, exist_ok). if parents then 1 else 0]") auto

declare path_mkdir.simps [simp del]

definition path_unlink :: "'c filesystem \<Rightarrow> path \<Rightarrow> py_error + 'c filesystem" where
  "path_unlink fs p =
     (case lookup fs p of
        None \<Rightarrow> Inl FileNotFoundError
      | Some Dir \<Rightarrow> Inl IsADirectoryError
      | Some (File c) \<Rightarrow> Inr (AList.delete p fs))"

definition rmtree :: "'c filesystem \<Rightarrow> path \<Rightarrow> py_error + 'c filesystem" where
  "rmtree fs d =
     (case lookup fs d of
        None \<Rightarrow> Inl FileNotFoundError
      | Some (File c) \<Rightarrow> Inl NotADirectoryError
      | Some Dir \<Rightarrow> Inr (filter (\<lambda>e. \<not> prefix d (fst e)) fs))"

text \<open>\<open>open(path, "wb")\<close> followed by \<open>write\<close>.\<close>

definition open_wb_write :: "'c filesystem \<Rightarrow> path \<Rightarrow> 'c \<Rightarrow> py_error + 'c filesystem" where
  "open_wb_write fs p data =
     (if is_dir fs p then Inl IsADirectoryError
      else (case lookup fs (butlast p) of
              None \<Rightarrow> Inl FileNotFoundError
            | Some (File c) \<Rightarrow> Inl NotADirectoryError
            | Some Dir \<Rightarrow> Inr (AList.update p (File data) fs)))"

text \<open>
  \<open>cv2.imread\<close> gives \<open>None\<close> for anything it cannot decode; \<open>cv2.imwrite\<close> reports a
  failed write by its return value, which the script ignores.
\<close>

definition imread :: "'c externals \<Rightarrow> 'c filesystem \<Rightarrow> path \<Rightarrow> buffer option" where
  "imread ext fs p = (case lookup fs p of Some (File c) \<Rightarrow> imdecode ext c | _ \<Rightarrow> None)"

definition imwrite :: "'c externals \<Rightarrow> 'c filesystem \<Rightarrow> path \<Rightarrow> buffer \<Rightarrow> 'c filesystem" where
  "imwrite ext fs p img =
     (if p \<noteq> [] \<and> is_dir fs (butlast p) \<and> \<not> is_dir fs p
      then AList.update p (File (imencode ext (last p) img)) fs
      else fs)"

text \<open>\<open>img2pdf.convert\<close> on a list of paths: it opens every path and assembles the contents.\<close>

fun read_files :: "'c filesystem \<Rightarrow> path list \<Rightarrow> py_error + 'c list" where
  "read_files fs [] = Inr []"
| "read_files fs (p # ps) =
     (case lookup fs p of
        None \<Rightarrow> Inl FileNotFoundError
      | Some Dir \<Rightarrow> Inl IsADirectoryError
      | Some (File c) \<Rightarrow>
          (case read_files fs ps of Inl e \<Rightarrow> Inl e | Inr cs \<Rightarrow> Inr (c # cs)))"

definition img2pdf_paths :: "'c externals \<Rightarrow> 'c filesystem \<Rightarrow> path list \<Rightarrow> py_error + 'c" where
  "img2pdf_paths ext fs ps =
     (case read_files fs ps of Inl e \<Rightarrow> Inl e | Inr cs \<Rightarrow> img2pdf_convert ext cs)"

text \<open>
  \<open>PurePath.suffix\<close> is the part of the name from its last dot, unless that dot is the
  first or the last character; \<open>with_suffix\<close> replaces it, or appends when there is none.
\<close>

definition path_suffix :: "string \<Rightarrow> string" where
  "path_suffix name =
     (let k = length (takeWhile (\<lambda>c. c \<noteq> CHR ''.'') (rev name))
      in if k < length name \<and> 0 < length name - 1 - k \<and> 0 < k
         then drop (length name - 1 - k) name
         else [])"

definition with_suffix :: "path \<Rightarrow> string \<Rightarrow> py_error + path" where
  "with_suffix p sfx =
     (if p = [] then Inl (ValueError ''has an empty name'')
      else (let name = last p; old_suffix = path_suffix name
            in Inr (butlast p @
                 [if old_suffix = [] then name @ sfx
                  else take (length name - length old_suffix) name @ sfx])))"

subsection \<open>The console\<close>

text \<open>
  \<open>stdin\<close> is the list of the lines still to be read and \<open>stdout\<close> the list of what has
  been printed so far. \<open>Prompt p\<close> stands for the text of \<open>input\<close>'s prompt, ``Proceeding
  will overwrite the following file: \<open>p\<close>, Continue (Y/n):''.
\<close>

datatype event = Prompt path | Print string

record 'c world =
  files :: "'c filesystem"
  stdin :: "string list"
  stdout :: "event list"

type_synonym ('c, 'a) prog = "'c world \<Rightarrow> (py_error + 'a) \<times> 'c world"

definition lift_fs :: "py_error + 'c filesystem \<Rightarrow> 'c world \<Rightarrow> (py_error + unit) \<times> 'c world" where
  "lift_fs r w = (case r of Inl e \<Rightarrow> (Inl e, w) | Inr fs' \<Rightarrow> (Inr (), w\<lparr>files := fs'\<rparr>))"

text \<open>
  The confirmation loop, written twice in the source (lines 107 to 118 and 153 to 164) with
  the same text: \<open>input\<close> prints the prompt and reads one line of \<open>stdin\<close>, raising
  \<open>EOFError\<close> when there is none; \<open>exit(0)\<close> raises \<open>SystemExit\<close>.
\<close>

definition keep_asking :: "string \<Rightarrow> bool" where
  "keep_asking user_cont \<longleftrightarrow>
     py_strip (py_lower user_cont) \<noteq> ''y''
     \<and> py_strip (py_lower user_cont) \<noteq> ''n''
     \<and> user_cont \<noteq> []"

fun confirm_loop ::
  "path \<Rightarrow> string \<Rightarrow> string list \<Rightarrow> event list \<Rightarrow> (py_error + unit) \<times> string list \<times> event list" where
  "confirm_loop p user_cont [] out =
     (if keep_asking user_cont then (Inl EOFError, [], out @ [Prompt p])
      else (Inr (), [], out))"
| "confirm_loop p user_cont (a # rest) out =
     (if keep_asking user_cont
      then (if py_strip (py_lower a) = ''n''
            then (Inl (SystemExit 0), rest, out @ [Prompt p, Print ''Operation canceled.''])
            else confirm_loop p a rest (out @ [Prompt p]))
      else (Inr (), a # rest, out))"

definition confirm_overwrite :: "path \<Rightarrow> ('c, unit) prog" where
  "confirm_overwrite p w =
     (case confirm_loop p ''_'' (stdin w) (stdout w) of
        (r, inp, out) \<Rightarrow> (r, w\<lparr>stdin := inp, stdout := out\<rparr>))"

subsection \<open>The Conversion Pipeline\<close>

text \<open>
  \<open>convert_imgs\<close> in three parts: \<open>make_output_dir\<close> is the \<open>try ... except
  FileExistsError\<close> of lines 104 to 121, \<open>convert_loop\<close> the \<open>for\<close> loop of lines 123 to
  134 over the entries \<open>iterdir\<close> listed, and \<open>convert_imgs\<close> puts them together. The
  messages of the two \<open>ValueError\<close>s of \<open>check_valid_args\<close> are cut before the path.
\<close>

definition get_output_path :: "path \<Rightarrow> py_error + path" where
  "get_output_path output_path = with_suffix output_path ''.pdf''"

fun convert_loop ::
  "'c externals \<Rightarrow> path \<Rightarrow> path \<Rightarrow> string \<Rightarrow> int \<Rightarrow> int \<Rightarrow> string list \<Rightarrow> ('c, unit) prog" where
  "convert_loop ext input_dir output_dir temp_suffix brightness contrast [] w = (Inr (), w)"
| "convert_loop ext input_dir output_dir temp_suffix brightness contrast (name # names) w =
     (case get_img_name name of
        None \<Rightarrow> convert_loop ext input_dir output_dir temp_suffix brightness contrast names w
      | Some img_name \<Rightarrow>
          (let img = imread ext (files w) (input_dir @ [name])
           in case apply_brightness_contrast ext img brightness contrast of
                Inl e \<Rightarrow> (Inl e, w)
              | Inr transformed_img \<Rightarrow>
                  (let file_name = img_name @ temp_suffix @ ''.jpg'';
                       output_path = output_dir @ [file_name]
                   in convert_loop ext input_dir output_dir temp_suffix brightness contrast names
                        (w\<lparr>files := imwrite ext (files w) output_path transformed_img\<rparr>))))"

definition make_output_dir :: "path \<Rightarrow> ('c, unit) prog" where
  "make_output_dir output_dir w =
     (case path_mkdir (files w) output_dir True True of
        Inr fs' \<Rightarrow> (Inr (), w\<lparr>files := fs'\<rparr>)
      | Inl e \<Rightarrow>
          if e = FileExistsError
          then (case confirm_overwrite output_dir w of
                  (Inl e', w1) \<Rightarrow> (Inl e', w1)
                | (Inr u, w1) \<Rightarrow>
                    (case path_unlink (files w1) output_dir of
                       Inl e' \<Rightarrow> (Inl e', w1)
                     | Inr fs1 \<Rightarrow> lift_fs (path_mkdir fs1 output_dir True False) (w1\<lparr>files := fs1\<rparr>)))
          else (Inl e, w))"

definition convert_imgs ::
  "'c externals \<Rightarrow> path \<Rightarrow> path option \<Rightarrow> string \<Rightarrow> int \<Rightarrow> int \<Rightarrow> ('c, path) prog" where
  "convert_imgs ext input_dir output_dir_arg temp_suffix brightness contrast w =
     (let output_dir = (case output_dir_arg of
                          None \<Rightarrow> input_dir @ [''.images_to_pdf_temp'']
                        | Some d \<Rightarrow> d)
      in case make_output_dir output_dir w of
           (Inl e, w1) \<Rightarrow> (Inl e, w1)
         | (Inr u, w1) \<Rightarrow>
             (case iterdir (files w1) input_dir of
                Inl e \<Rightarrow> (Inl e, w1)
              | Inr names \<Rightarrow>
                  (case convert_loop ext input_dir output_dir temp_suffix brightness contrast names w1 of
                     (Inl e, w2) \<Rightarrow> (Inl e, w2)
                   | (Inr u', w2) \<Rightarrow> (Inr output_dir, w2))))"

definition imgs_to_pdf :: "'c externals \<Rightarrow> path \<Rightarrow> path \<Rightarrow> ('c, unit) prog" where
  "imgs_to_pdf ext imgs_dir output_path w =
     (case iterdir (files w) imgs_dir of
        Inl e \<Rightarrow> (Inl e, w)
      | Inr names \<Rightarrow>
          (let imgs_paths = map (\<lambda>name. imgs_dir @ [name]) names
           in case img2pdf_paths ext (files w) imgs_paths of
                Inl e \<Rightarrow> (Inl e, w)
              | Inr pdf \<Rightarrow> lift_fs (open_wb_write (files w) output_path pdf) w))"

definition delete_temp_imgs :: "path \<Rightarrow> ('c, unit) prog" where
  "delete_temp_imgs temp_dir w = lift_fs (rmtree (files w) temp_dir) w"

definition check_valid_args :: "path \<Rightarrow> path \<Rightarrow> ('c, unit) prog" where
  "check_valid_args imgs_path output_path w =
     (case (if path_exists (files w) output_path then confirm_overwrite output_path w
            else (Inr (), w)) of
        (Inl e, w1) \<Rightarrow> (Inl e, w1)
      | (Inr u, w1) \<Rightarrow>
          if \<not> is_dir (files w1) imgs_path
          then (Inl (ValueError ''Invalid input images path''), w1)
          else if \<not> path_exists (files w1) imgs_path
          then (Inl (ValueError ''Input path in argument does not exist''), w1)
          else (Inr (), w1))"

record args =
  args_imgs_path :: path
  args_output_path :: "path option"
  args_brightness :: int
  args_contrast :: int

text \<open>
  \<open>main\<close> after argument parsing; \<open>resolve_output_path\<close> is the default of lines 204 and
  205. The \<open>try ... finally\<close> of lines 216 to 219 runs \<open>delete_temp_imgs\<close> whatever the
  protected block (\<open>assemble_step\<close>, line 217) did; an exception of the block is raised
  again afterwards, unless the cleanup raised one itself.
\<close>

definition try_finally :: "('c, 'a) prog \<Rightarrow> ('c, unit) prog \<Rightarrow> ('c, 'a) prog" where
  "try_finally body cleanup w =
     (case body w of
        (r, w1) \<Rightarrow> (case cleanup w1 of (Inl e, w2) \<Rightarrow> (Inl e, w2) | (Inr u, w2) \<Rightarrow> (r, w2)))"

definition assemble_step :: "'c externals \<Rightarrow> path \<Rightarrow> path \<Rightarrow> ('c, unit) prog" where
  "assemble_step ext converted_dir output_path w =
     (case get_output_path output_path of
        Inl e \<Rightarrow> (Inl e, w)
      | Inr pdf_path \<Rightarrow> imgs_to_pdf ext converted_dir pdf_path w)"

definition resolve_output_path :: "args \<Rightarrow> path" where
  "resolve_output_path a =
     (case args_output_path a of
        None \<Rightarrow> args_imgs_path a @ [''combined_imgs.pdf'']
      | Some p \<Rightarrow> p)"

definition main :: "'c externals \<Rightarrow> args \<Rightarrow> ('c, unit) prog" where
  "main ext a w =
     (let imgs_path = args_imgs_path a;
          output_path = resolve_output_path a
      in case check_valid_args imgs_path output_path w of
           (Inl e, w1) \<Rightarrow> (Inl e, w1)
         | (Inr u, w1) \<Rightarrow>
             (case convert_imgs ext imgs_path None ''__temp'' (args_brightness a) (args_contrast a) w1 of
                (Inl e, w2) \<Rightarrow> (Inl e, w2)
              | (Inr converted_dir, w2) \<Rightarrow>
                  try_finally (assemble_step ext converted_dir output_path)
                              (delete_temp_imgs converted_dir) w2))"

subsection \<open>Vocabulary of the properties\<close>

text \<open>
  The scratch directory of an input directory. A file system is in order when every entry
  has a name and lies in a directory. In the words of the spec, the valid images of a
  directory are its entries whose name ends with \<open>.png\<close> or \<open>.jpg\<close>, the base name of
  one is its name without these four characters, and \<open>staged_name\<close> is the base name
  followed by the temp suffix and \<open>.jpg\<close>. What the code does is \<open>written_name\<close>, the
  file name \<open>convert_loop\<close> builds from the result of \<open>get_img_name\<close>, and
  \<open>staged_paths\<close>, the paths it writes for a list of entry names. An answer at the prompt
  says no, says yes, or is asked again.
\<close>

definition scratch_of :: "path \<Rightarrow> path" where
  "scratch_of input_dir = input_dir @ [''.images_to_pdf_temp'']"

definition file_system_ok :: "'c filesystem \<Rightarrow> bool" where
  "file_system_ok fs \<longleftrightarrow> list_all (\<lambda>e. fst e \<noteq> [] \<and> is_dir fs (butlast (fst e))) fs"

definition ends_with_ext :: "string \<Rightarrow> bool" where
  "ends_with_ext s \<longleftrightarrow> suffix ''.png'' s \<or> suffix ''.jpg'' s"


definition valid_images :: "'c filesystem \<Rightarrow> path \<Rightarrow> string list" where
  "valid_images fs d = filter ends_with_ext (child_names fs d)"


definition written_name :: "string \<Rightarrow> string \<Rightarrow> string" where
  "written_name temp_suffix name =
     (case get_img_name name of None \<Rightarrow> [] | Some img_name \<Rightarrow> img_name @ temp_suffix @ ''.jpg'')"

definition staged_paths :: "path \<Rightarrow> string \<Rightarrow> string list \<Rightarrow> path set" where
  "staged_paths outd sfx names =
     (\<lambda>n. outd @ [written_name sfx n]) ` {n \<in> set names. get_img_name n \<noteq> None}"

definition says_no :: "string \<Rightarrow> bool" where
  "says_no a \<longleftrightarrow> py_strip (py_lower a) = ''n''"

definition says_yes :: "string \<Rightarrow> bool" where
  "says_yes a \<longleftrightarrow> py_strip (py_lower a) = ''y'' \<or> a = []"

subsection \<open>Concrete collaborators and worlds for the examples\<close>

text \<open>
  A file's content is the buffer it decodes to; the empty content is not an image. The
  assembler of \<open>demo_ext\<close> concatenates its inputs, the one of \<open>failing_ext\<close> raises.
\<close>

definition demo_ext :: "buffer externals" where
  "demo_ext = \<lparr>cv_round = (\<lambda>q. \<lfloor>q + 1 / 2\<rfloor>),
                imdecode = (\<lambda>c. if c = [] then None else Some c),
                imencode = (\<lambda>name img. img),
                img2pdf_convert = (\<lambda>cs. Inr (concat cs))\<rparr>"

definition failing_ext :: "buffer externals" where
  "failing_ext = demo_ext\<lparr>img2pdf_convert := (\<lambda>cs. Inl AssemblerError)\<rparr>"

text \<open>
  The directory of the spec's example, \<open>a.png\<close>, \<open>b.jpg\<close> and \<open>c.txt\<close>, and variations
  of it: with an output file or a file at the scratch path already there, with an old
  scratch directory, with an entry that does not decode, with two images of one base name,
  and with newlines in entry names.
\<close>

definition demo_files :: "buffer filesystem" where
  "demo_files = [([''imgs''], Dir),
                 ([''imgs'', ''a.png''], File [1, 2, 3]),
                 ([''imgs'', ''b.jpg''], File [4, 5]),
                 ([''imgs'', ''c.txt''], File [])]"

definition demo_world :: "buffer world" where
  "demo_world = \<lparr>files = demo_files, stdin = [], stdout = []\<rparr>"

definition demo_args :: "int \<Rightarrow> int \<Rightarrow> args" where
  "demo_args b c = \<lparr>args_imgs_path = [''imgs''], args_output_path = None,
                     args_brightness = b, args_contrast = c\<rparr>"

definition assembled_world :: "buffer world" where
  "assembled_world =
     \<lparr>files = demo_files @ [([''imgs'', ''combined_imgs.pdf''], File [1, 2, 3, 4, 5])],
      stdin = [], stdout = []\<rparr>"

definition existing_output_world :: "string list \<Rightarrow> buffer world" where
  "existing_output_world answers =
     \<lparr>files = demo_files @ [([''imgs'', ''combined_imgs.pdf''], File [9])],
      stdin = answers, stdout = []\<rparr>"

definition stale_pdf_world :: "buffer world" where
  "stale_pdf_world =
     \<lparr>files = demo_files @ [([''foo.pdf''], File [9])], stdin = [''n''], stdout = []\<rparr>"

definition txt_output_args :: args where
  "txt_output_args = \<lparr>args_imgs_path = [''imgs''], args_output_path = Some [''foo.txt''],
                        args_brightness = 0, args_contrast = 0\<rparr>"

definition scratch_file_world :: "string list \<Rightarrow> buffer world" where
  "scratch_file_world answers =
     \<lparr>files = demo_files @ [(scratch_of [''imgs''], File [9])], stdin = answers, stdout = []\<rparr>"

definition reused_scratch_world :: "buffer world" where
  "reused_scratch_world =
     \<lparr>files = demo_files @ [(scratch_of [''imgs''], Dir),
                             (scratch_of [''imgs''] @ [''old__temp.jpg''], File [9])],
      stdin = [''n''], stdout = []\<rparr>"


definition corrupt_world :: "buffer world" where
  "corrupt_world =
     \<lparr>files = [([''imgs''], Dir),
               ([''imgs'', ''a.png''], File [1, 2, 3]),
               ([''imgs'', ''bad.png''], File [])],
      stdin = [], stdout = []\<rparr>"


definition newline_world :: "buffer world" where
  "newline_world =
     \<lparr>files = [([''imgs''], Dir),
               ([''imgs'', ''a.png'' @ [newline]], File [1, 2, 3]),
               ([''imgs'', ''x'' @ [newline] @ ''y.jpg''], File [4, 5])],
      stdin = [], stdout = []\<rparr>"

section \<open>Properties of the Tone Adjuster\<close>

lemma addWeighted_same:
  "addWeighted rnd (Some buf) alpha (Some buf) 0 gamma = Inr (spec_clamp rnd alpha gamma buf)"
  by (simp add: addWeighted_def spec_clamp_def weighted_sample_def zip_same_conv_map comp_def)

lemma length_spec_clamp: "length (spec_clamp rnd alpha gamma buf) = length buf"
  by (simp add: spec_clamp_def)

lemma length_spec_adjust: "length (spec_adjust rnd buf b c) = length buf"
  by (simp add: spec_adjust_def Let_def length_spec_clamp)

text \<open>
  Away from \<open>contrast = 131\<close> the code computes what the spec's formulas say, and the
  result has as many samples as the input.
\<close>

lemma apply_brightness_contrast_refines_spec:
  assumes "contrast \<noteq> 131"
  shows "apply_brightness_contrast ext (Some buf) brightness contrast
           = Inr (spec_adjust (cv_round ext) buf brightness contrast)"
proof -
  have d: "127 * (131 - contrast) \<noteq> 0" using assms by simp
  show ?thesis
  proof (cases "brightness = 0")
    case True
    then show ?thesis using d
      by (simp add: apply_brightness_contrast_def spec_adjust_def ndarray_copy_def
          py_truediv_def addWeighted_same Let_def)
  next
    case False
    then show ?thesis using d
      by (cases "brightness > 0")
         (simp_all add: apply_brightness_contrast_def spec_adjust_def py_truediv_def
            addWeighted_same Let_def max_def min_def)
  qed
qed

lemma apply_brightness_contrast_zero:
  "apply_brightness_contrast ext (Some buf) 0 0 = Inr buf"
  by (simp add: apply_brightness_contrast_def ndarray_copy_def)

text \<open>
  Claim C8. With \<open>contrast = 131\<close> the denominator \<open>127 * (131 - contrast)\<close> is zero,
  and the Tone Adjuster raises \<open>ZeroDivisionError\<close> for every buffer and every
  brightness; nothing before the division rejects the value, so a run of \<open>main\<close> with
  \<open>-c 131\<close> on a directory with an image ends in that error.
\<close>

theorem contrast_131_raises:
  "apply_brightness_contrast ext (Some buf) b 131 = Inl ZeroDivisionError
   \<and> fst (main demo_ext (demo_args 0 131) demo_world) = Inl ZeroDivisionError"
proof
  show "apply_brightness_contrast ext (Some buf) b 131 = Inl ZeroDivisionError"
    by (simp add: apply_brightness_contrast_def py_truediv_def ndarray_copy_def addWeighted_same Let_def)
  show "fst (main demo_ext (demo_args 0 131) demo_world) = Inl ZeroDivisionError"
    by code_simp
qed

text \<open>The same at a concrete buffer and brightness.\<close>

theorem contrast_131_raises_witness:
  "apply_brightness_contrast demo_ext (Some [7, 8, 9]) 50 131 = Inl ZeroDivisionError"
  using contrast_131_raises[of demo_ext "[7, 8, 9]" 50] by simp

text \<open>
  Claim C1 says that for every contrast in \<open>[-255, 255]\<close> the Tone Adjuster returns a
  buffer computed by the spec's formulas. At \<open>contrast = 131\<close>, which lies in that range,
  the code returns no buffer but raises \<open>ZeroDivisionError\<close>; at the neighbouring value
  130 it returns what the formulas say (\<open>apply_brightness_contrast_refines_spec\<close> above
  covers every contrast other than 131, and \<open>apply_brightness_contrast_zero\<close> the
  identity at \<open>(0, 0)\<close>).
\<close>

theorem tone_adjuster_fails_in_range:
  "(-255 \<le> (131::int) \<and> (131::int) \<le> 255)
   \<and> apply_brightness_contrast demo_ext (Some [100, 100, 100]) 0 131 = Inl ZeroDivisionError
   \<and> apply_brightness_contrast demo_ext (Some [100, 100, 100]) 0 130
       = Inr (spec_adjust (cv_round demo_ext) [100, 100, 100] 0 130)"
  by (simp add: apply_brightness_contrast_refines_spec)
     (simp add: apply_brightness_contrast_def py_truediv_def ndarray_copy_def)

section \<open>The confirmation prompt\<close>

lemma confirm_loop_done:
  "\<not> keep_asking uc \<Longrightarrow> confirm_loop p uc inp out = (Inr (), inp, out)"
  by (cases inp) simp_all

lemma keep_asking_underscore: "keep_asking ''_''"
  by (simp add: keep_asking_def py_strip_def py_lower_def py_lower_char_def py_isspace_def)

lemma confirm_loop_restart:
  "keep_asking uc \<Longrightarrow> confirm_loop p uc inp out = confirm_loop p ''_'' inp out"
  using keep_asking_underscore by (cases inp) simp_all

lemma keep_asking_iff: "keep_asking a \<longleftrightarrow> \<not> says_yes a \<and> \<not> says_no a"
  by (auto simp: keep_asking_def says_yes_def says_no_def py_strip_def py_lower_def)

lemma confirm_overwrite_no:
  assumes "stdin w = a # rest" "says_no a"
  shows "confirm_overwrite p w =
           (Inl (SystemExit 0),
            w\<lparr>stdin := rest, stdout := stdout w @ [Prompt p, Print ''Operation canceled.'']\<rparr>)"
  using assms keep_asking_underscore by (simp add: confirm_overwrite_def says_no_def)

lemma confirm_overwrite_yes:
  assumes "stdin w = a # rest" "says_yes a" "\<not> says_no a"
  shows "confirm_overwrite p w = (Inr (), w\<lparr>stdin := rest, stdout := stdout w @ [Prompt p]\<rparr>)"
proof -
  have "\<not> keep_asking a" using assms by (simp add: keep_asking_iff)
  then show ?thesis
    using assms keep_asking_underscore
    by (simp add: confirm_overwrite_def says_no_def confirm_loop_done)
qed

lemma confirm_overwrite_again:
  assumes "stdin w = a # rest" "keep_asking a"
  shows "confirm_overwrite p w = confirm_overwrite p (w\<lparr>stdin := rest, stdout := stdout w @ [Prompt p]\<rparr>)"
  using assms keep_asking_underscore
  by (simp add: confirm_overwrite_def keep_asking_iff says_no_def confirm_loop_restart[of a])

lemma yes_not_no: "says_yes a \<Longrightarrow> \<not> says_no a"
  by (auto simp: says_yes_def says_no_def py_strip_def py_lower_def)

lemma check_valid_args_after_yes:
  assumes "path_exists (files w) op" "stdin w = a # rest" "says_yes a"
  shows "check_valid_args ip op w =
           (if is_dir (files w) ip then Inr () else Inl (ValueError ''Invalid input images path''),
            w\<lparr>stdin := rest, stdout := stdout w @ [Prompt op]\<rparr>)"
  using assms yes_not_no[of a]
  by (auto simp: check_valid_args_def confirm_overwrite_yes[of w a rest] is_dir_def path_exists_def)

text \<open>
  The empty answer is the line with no character at all: the source compares the unstripped
  answer with the empty string, so a line of blanks is asked again.
\<close>

lemma blank_answer_is_asked_again: "keep_asking ''  ''"
  by code_simp

text \<open>
  Claim C9 says that answers are taken with whitespace stripped and that an empty answer is
  a yes. The emptiness test of the source is made on the answer as typed: a line of two
  blanks, empty once stripped, is not taken as a yes. The prompt appears a second time, and
  the ``n'' that follows ends the run.
\<close>

theorem blank_answer_is_not_yes:
  "py_strip (py_lower ''  '') = []
   \<and> check_valid_args [''imgs''] [''imgs'', ''combined_imgs.pdf''] (existing_output_world [''  '', ''n''])
       = (Inl (SystemExit 0),
          (existing_output_world [''  '', ''n''])
            \<lparr>stdin := [],
              stdout := [Prompt [''imgs'', ''combined_imgs.pdf''],
                         Prompt [''imgs'', ''combined_imgs.pdf''],
                         Print ''Operation canceled.'']\<rparr>)"
  by code_simp

text \<open>
  Claim C9, amended. At the prompt that guards an existing output file, ``y'' and ``n'' are
  read with case folded and surrounding whitespace stripped. ``n'' prints the cancellation
  message and ends the whole run with \<open>SystemExit 0\<close>, the file system untouched; ``y'',
  or the answer with no character at all, lets validation go on; any other answer, a line
  of blanks included, makes the prompt appear again.
\<close>

theorem output_prompt_answers:
  assumes "path_exists (files w) (resolve_output_path a)" and "stdin w = ans # rest"
  shows "(says_no ans \<longrightarrow>
            main ext a w =
              (Inl (SystemExit 0),
               w\<lparr>stdin := rest,
                 stdout := stdout w @ [Prompt (resolve_output_path a), Print ''Operation canceled.'']\<rparr>))
       \<and> (says_yes ans \<longrightarrow>
            check_valid_args (args_imgs_path a) (resolve_output_path a) w =
              (if is_dir (files w) (args_imgs_path a) then Inr ()
               else Inl (ValueError ''Invalid input images path''),
               w\<lparr>stdin := rest, stdout := stdout w @ [Prompt (resolve_output_path a)]\<rparr>))
       \<and> (\<not> says_yes ans \<and> \<not> says_no ans \<longrightarrow>
            check_valid_args (args_imgs_path a) (resolve_output_path a) w =
              check_valid_args (args_imgs_path a) (resolve_output_path a)
                (w\<lparr>stdin := rest, stdout := stdout w @ [Prompt (resolve_output_path a)]\<rparr>))"
proof (intro conjI impI)
  assume n: "says_no ans"
  have "check_valid_args (args_imgs_path a) (resolve_output_path a) w =
          (Inl (SystemExit 0),
           w\<lparr>stdin := rest,
             stdout := stdout w @ [Prompt (resolve_output_path a), Print ''Operation canceled.'']\<rparr>)"
    using assms n by (simp add: check_valid_args_def confirm_overwrite_no[of w ans rest])
  then show "main ext a w =
              (Inl (SystemExit 0),
               w\<lparr>stdin := rest,
                 stdout := stdout w @ [Prompt (resolve_output_path a), Print ''Operation canceled.'']\<rparr>)"
    by (simp add: main_def Let_def)
next
  assume "says_yes ans"
  then show "check_valid_args (args_imgs_path a) (resolve_output_path a) w =
              (if is_dir (files w) (args_imgs_path a) then Inr ()
               else Inl (ValueError ''Invalid input images path''),
               w\<lparr>stdin := rest, stdout := stdout w @ [Prompt (resolve_output_path a)]\<rparr>)"
    using assms by (simp add: check_valid_args_after_yes)
next
  assume "\<not> says_yes ans \<and> \<not> says_no ans"
  then have k: "keep_asking ans" by (simp add: keep_asking_iff)
  show "check_valid_args (args_imgs_path a) (resolve_output_path a) w =
              check_valid_args (args_imgs_path a) (resolve_output_path a)
                (w\<lparr>stdin := rest, stdout := stdout w @ [Prompt (resolve_output_path a)]\<rparr>)"
    using assms k by (simp add: check_valid_args_def confirm_overwrite_again[of w ans rest])
qed

theorem output_prompt_answers_witness:
  "main demo_ext (demo_args 0 0) (existing_output_world ['' N ''])
     = (Inl (SystemExit 0),
        (existing_output_world ['' N ''])
          \<lparr>stdin := [], stdout := [Prompt [''imgs'', ''combined_imgs.pdf''], Print ''Operation canceled.'']\<rparr>)
   \<and> fst (check_valid_args [''imgs''] [''imgs'', ''combined_imgs.pdf''] (existing_output_world [[]])) = Inr ()
   \<and> check_valid_args [''imgs''] [''imgs'', ''combined_imgs.pdf''] (existing_output_world [''maybe'', ''Y''])
     = check_valid_args [''imgs''] [''imgs'', ''combined_imgs.pdf'']
         ((existing_output_world [''Y''])\<lparr>stdout := [Prompt [''imgs'', ''combined_imgs.pdf'']]\<rparr>)"
proof -
  have r: "resolve_output_path (demo_args 0 0) = [''imgs'', ''combined_imgs.pdf'']"
    by (simp add: resolve_output_path_def demo_args_def)
  have i: "args_imgs_path (demo_args 0 0) = [''imgs'']"
    by (simp add: demo_args_def)
  have e: "path_exists (files (existing_output_world xs)) (resolve_output_path (demo_args 0 0))" for xs
    by (simp add: r existing_output_world_def demo_files_def path_exists_def lookup_def)
  have d: "is_dir (files (existing_output_world xs)) [''imgs'']" for xs
    by (simp add: existing_output_world_def demo_files_def is_dir_def lookup_def)
  have n: "says_no '' N ''" by code_simp
  have y: "says_yes []" by code_simp
  have m: "\<not> says_yes ''maybe'' \<and> \<not> says_no ''maybe''" by code_simp
  have s: "stdin (existing_output_world (x # xs)) = x # xs" for x xs
    by (simp add: existing_output_world_def)
  show ?thesis
    using output_prompt_answers[where ext = demo_ext and ans = "'' N ''" and rest = "[]", OF e s]
          output_prompt_answers[where ext = demo_ext and ans = "[]" and rest = "[]", OF e s]
          output_prompt_answers[where ext = demo_ext and ans = "''maybe''" and rest = "[''Y'']", OF e s]
          n y m d
    by (simp add: r i existing_output_world_def)
qed

lemma confirm_loop_shape:
  "keep_asking uc \<Longrightarrow> confirm_loop p uc inp out = (r, inp', out') \<Longrightarrow>
     (\<exists>evs. out' = out @ Prompt p # evs)
     \<and> (r = Inr () \<or> r = Inl (SystemExit 0) \<or> r = Inl EOFError)
     \<and> (r = Inr () \<longrightarrow> (\<exists>k<length inp. says_yes (inp ! k) \<and> inp' = drop (Suc k) inp))"
proof (induction inp arbitrary: uc out)
  case Nil
  then show ?case by auto
next
  case (Cons a rest)
  show ?case
  proof (cases "says_no a")
    case True
    with Cons.prems show ?thesis by (auto simp: says_no_def)
  next
    case no: False
    show ?thesis
    proof (cases "keep_asking a")
      case True
      from Cons.prems no have "confirm_loop p a rest (out @ [Prompt p]) = (r, inp', out')"
        by (simp add: says_no_def)
      from Cons.IH[OF True this] show ?thesis
        by (auto simp: less_Suc_eq_0_disj)
    next
      case False
      with Cons.prems no have "r = Inr ()" "inp' = rest" "out' = out @ [Prompt p]"
        by (simp_all add: says_no_def confirm_loop_done)
      moreover have "says_yes a" using False no by (simp add: keep_asking_iff)
      ultimately show ?thesis by auto
    qed
  qed
qed

text \<open>
  Claim C10. When the output path exists and the input path is not a directory,
  \<open>check_valid_args\<close> prints the overwrite prompt first and waits for an answer; the
  invalid-input error is raised only once some answer has been accepted as a yes, and the
  file system is unchanged in every case.
\<close>

theorem prompt_precedes_input_check:
  assumes "path_exists (files w) op" and "\<not> is_dir (files w) ip"
  shows "case check_valid_args ip op w of
           (r, w') \<Rightarrow>
             (\<exists>evs. stdout w' = stdout w @ Prompt op # evs)
             \<and> files w' = files w
             \<and> (r = Inl (ValueError ''Invalid input images path'')
                  \<or> r = Inl (SystemExit 0) \<or> r = Inl EOFError)
             \<and> (r = Inl (ValueError ''Invalid input images path'') \<longrightarrow>
                  (\<exists>k<length (stdin w). says_yes (stdin w ! k) \<and> stdin w' = drop (Suc k) (stdin w)))"
proof -
  obtain r inp' out' where c: "confirm_loop op ''_'' (stdin w) (stdout w) = (r, inp', out')"
    by (cases "confirm_loop op ''_'' (stdin w) (stdout w)") auto
  note sh = confirm_loop_shape[OF keep_asking_underscore c]
  show ?thesis
  proof (cases r)
    case (Inl e)
    then show ?thesis using assms c sh
      by (auto simp: check_valid_args_def confirm_overwrite_def)
  next
    case (Inr u)
    then show ?thesis using assms c sh
      by (auto simp: check_valid_args_def confirm_overwrite_def is_dir_def)
  qed
qed
text \<open>
  An existing output file and an input path that does not exist: after the answer ``y'' the
  error is the invalid-input error and one prompt has been printed; with no answer at all
  the run ends in \<open>EOFError\<close> at the prompt.
\<close>

theorem prompt_precedes_input_check_witness:
  "fst (check_valid_args [''nowhere''] [''imgs'', ''combined_imgs.pdf''] (existing_output_world [''y'']))
     = Inl (ValueError ''Invalid input images path'')
   \<and> stdout (snd (check_valid_args [''nowhere''] [''imgs'', ''combined_imgs.pdf''] (existing_output_world [''y''])))
     = [Prompt [''imgs'', ''combined_imgs.pdf'']]
   \<and> fst (check_valid_args [''nowhere''] [''imgs'', ''combined_imgs.pdf''] (existing_output_world []))
     = Inl EOFError"
proof -
  have e: "path_exists (files (existing_output_world xs)) [''imgs'', ''combined_imgs.pdf'']" for xs
    by (simp add: existing_output_world_def demo_files_def path_exists_def lookup_def)
  have d: "\<not> is_dir (files (existing_output_world xs)) [''nowhere'']" for xs
    by (simp add: existing_output_world_def demo_files_def is_dir_def lookup_def)
  have v: "fst (check_valid_args [''nowhere''] [''imgs'', ''combined_imgs.pdf''] (existing_output_world [''y'']))
     = Inl (ValueError ''Invalid input images path'')
   \<and> stdout (snd (check_valid_args [''nowhere''] [''imgs'', ''combined_imgs.pdf''] (existing_output_world [''y''])))
     = [Prompt [''imgs'', ''combined_imgs.pdf'']]
   \<and> fst (check_valid_args [''nowhere''] [''imgs'', ''combined_imgs.pdf''] (existing_output_world []))
     = Inl EOFError"
    by code_simp
  show ?thesis
    using prompt_precedes_input_check[OF e d, of "[''y'']"] v by simp
qed

section \<open>The scratch directory\<close>

lemma lookup_update:
  "lookup (AList.update k v fs) p = (if p = [] then Some Dir else if p = k then Some v else lookup fs p)"
  by (simp add: lookup_def update_conv')

lemma lookup_delete:
  "lookup (AList.delete k fs) p = (if p = [] then Some Dir else if p = k then None else lookup fs p)"
  by (simp add: lookup_def delete_conv')

lemma map_of_filter_fst:
  "map_of (filter (\<lambda>e. P (fst e)) fs) k = (if P k then map_of fs k else None)"
  by (induction fs) auto

lemma lookup_rmtree:
  "lookup (filter (\<lambda>e. \<not> prefix d (fst e)) fs) p
     = (if p = [] then Some Dir else if prefix d p then None else lookup fs p)"
  by (simp add: lookup_def map_of_filter_fst[where P = "\<lambda>q. \<not> prefix d q"])

lemma is_dir_root [simp]: "is_dir fs []"
  by (simp add: is_dir_def lookup_def)

lemma os_mkdir_is_dir: "os_mkdir fs p = Inr fs' \<Longrightarrow> is_dir fs' p"
  by (auto simp: os_mkdir_def is_dir_def lookup_update split: if_splits option.splits node.splits)

lemma path_mkdir_is_dir: "path_mkdir fs p parents exist_ok = Inr fs' \<Longrightarrow> is_dir fs' p"
proof (induction fs p parents exist_ok arbitrary: fs' rule: path_mkdir.induct)
  case (1 fs p parents exist_ok)
  note unf = path_mkdir.simps[of fs p parents exist_ok]
  show ?case
  proof (cases "os_mkdir fs p")
    case (Inr fs0)
    with "1.prems" unf show ?thesis by (simp add: os_mkdir_is_dir)
  next
    case (Inl e)
    show ?thesis
    proof (cases "e = FileNotFoundError")
      case False
      with Inl "1.prems" unf show ?thesis by (simp split: if_splits)
    next
      case True
      with Inl "1.prems" unf have np: "\<not> (\<not> parents \<or> p = [])" by (auto split: if_splits)
      from True Inl "1.prems" unf np obtain fs1 where
        a: "path_mkdir fs (butlast p) True True = Inr fs1" and
        b: "path_mkdir fs1 p False exist_ok = Inr fs'"
        by (auto split: sum.splits)
      from "1.IH"(2)[OF Inl True np a b] show ?thesis .
    qed
  qed
qed

lemma imwrite_keeps_dir: "is_dir fs q \<Longrightarrow> is_dir (imwrite ext fs p img) q"
  by (auto simp: imwrite_def is_dir_def lookup_update)

lemma convert_loop_keeps_dir:
  "is_dir (files w) q \<Longrightarrow> convert_loop ext ind outd sfx b c names w = (r, w') \<Longrightarrow> is_dir (files w') q"
proof (induction names arbitrary: w)
  case Nil
  then show ?case by simp
next
  case (Cons n ns)
  show ?case
  proof (cases "get_img_name n")
    case None
    with Cons.prems(2) have "convert_loop ext ind outd sfx b c ns w = (r, w')" by simp
    from Cons.IH[OF Cons.prems(1) this] show ?thesis .
  next
    case (Some g)
    show ?thesis
    proof (cases "apply_brightness_contrast ext (imread ext (files w) (ind @ [n])) b c")
      case (Inl e)
      with Some Cons.prems show ?thesis by (simp add: Let_def)
    next
      case (Inr t)
      let ?w = "w\<lparr>files := imwrite ext (files w) (outd @ [g @ sfx @ ''.jpg'']) t\<rparr>"
      from Some Inr Cons.prems(2) have "convert_loop ext ind outd sfx b c ns ?w = (r, w')"
        by (simp add: Let_def)
      moreover have "is_dir (files ?w) q" using Cons.prems(1) by (simp add: imwrite_keeps_dir)
      ultimately show ?thesis by (rule Cons.IH[rotated])
    qed
  qed
qed

lemma confirm_overwrite_files: "confirm_overwrite p w = (r, w') \<Longrightarrow> files w' = files w"
  by (auto simp: confirm_overwrite_def split: prod.splits)

lemma lift_fs_Inr: "lift_fs r w = (Inr u, w') \<Longrightarrow> \<exists>fs'. r = Inr fs' \<and> w' = w\<lparr>files := fs'\<rparr>"
  by (cases r) (auto simp: lift_fs_def)

lemma make_output_dir_is_dir:
  assumes "make_output_dir d w = (Inr u, w')"
  shows "is_dir (files w') d"
proof (cases "path_mkdir (files w) d True True")
  case (Inr fs')
  with assms show ?thesis by (auto simp: make_output_dir_def path_mkdir_is_dir)
next
  case (Inl e)
  with assms have e: "e = FileExistsError"
    by (auto simp: make_output_dir_def split: if_splits)
  obtain r1 w1 where c: "confirm_overwrite d w = (r1, w1)" by (cases "confirm_overwrite d w") auto
  with assms Inl e obtain u1 where r1: "r1 = Inr u1"
    by (cases r1) (auto simp: make_output_dir_def)
  from assms Inl e c r1 obtain fs1 where
    ul: "path_unlink (files w1) d = Inr fs1" and
    lf: "lift_fs (path_mkdir fs1 d True False) (w1\<lparr>files := fs1\<rparr>) = (Inr u, w')"
    by (cases "path_unlink (files w1) d") (auto simp: make_output_dir_def)
  from lift_fs_Inr[OF lf] obtain fs2 where "path_mkdir fs1 d True False = Inr fs2" "files w' = fs2"
    by auto
  then show ?thesis using path_mkdir_is_dir by blast
qed

lemma convert_imgs_returns_scratch:
  assumes "convert_imgs ext ip None sfx b c w = (Inr d, w')"
  shows "d = scratch_of ip \<and> is_dir (files w') d"
proof -
  obtain r1 w1 where m: "make_output_dir (scratch_of ip) w = (r1, w1)"
    by (cases "make_output_dir (scratch_of ip) w") auto
  with assms obtain u where r1: "r1 = Inr u"
    by (cases r1) (auto simp: convert_imgs_def scratch_of_def)
  from assms m r1 obtain names where it: "iterdir (files w1) ip = Inr names"
    by (cases "iterdir (files w1) ip") (auto simp: convert_imgs_def scratch_of_def)
  obtain r2 w2 where l: "convert_loop ext ip (scratch_of ip) sfx b c names w1 = (r2, w2)"
    by (cases "convert_loop ext ip (scratch_of ip) sfx b c names w1") auto
  from assms m r1 it l have d: "d = scratch_of ip" "w' = w2"
    by (cases r2; simp add: convert_imgs_def scratch_of_def)+
  from m r1 have "is_dir (files w1) (scratch_of ip)" by (simp add: make_output_dir_is_dir)
  from convert_loop_keeps_dir[OF this l] d show ?thesis by simp
qed

lemma open_wb_write_keeps_dir: "open_wb_write fs p data = Inr fs' \<Longrightarrow> is_dir fs q \<Longrightarrow> is_dir fs' q"
  by (auto simp: open_wb_write_def is_dir_def lookup_update split: if_splits option.splits node.splits)

lemma assemble_step_keeps_dir:
  "is_dir (files w) q \<Longrightarrow> is_dir (files (snd (assemble_step ext d op w))) q"
  by (auto simp: assemble_step_def imgs_to_pdf_def lift_fs_def Let_def open_wb_write_keeps_dir
           split: sum.splits)

lemma delete_temp_imgs_removes:
  assumes "is_dir (files w) d" "d \<noteq> []"
  shows "fst (delete_temp_imgs d w) = Inr () \<and> \<not> path_exists (files (snd (delete_temp_imgs d w))) d
         \<and> (\<forall>q. prefix d q \<longrightarrow> \<not> path_exists (files (snd (delete_temp_imgs d w))) q)"
  using assms
  by (auto simp: delete_temp_imgs_def lift_fs_def rmtree_def is_dir_def path_exists_def lookup_rmtree)

text \<open>
  Claim C5. Once \<open>convert_imgs\<close> has returned the scratch directory, \<open>main\<close> ends with
  the outcome of the assembly step, whether that is a normal return or an exception, and in
  both cases \<open>delete_temp_imgs\<close> has run without error and the scratch directory no
  longer exists.
\<close>

theorem cleanup_runs_after_assembly:
  assumes "check_valid_args (args_imgs_path a) (resolve_output_path a) w = (Inr (), w1)"
      and "convert_imgs ext (args_imgs_path a) None ''__temp'' (args_brightness a) (args_contrast a) w1
             = (Inr d, w2)"
  shows "main ext a w
           = (fst (assemble_step ext d (resolve_output_path a) w2),
              snd (delete_temp_imgs d (snd (assemble_step ext d (resolve_output_path a) w2))))
         \<and> fst (delete_temp_imgs d (snd (assemble_step ext d (resolve_output_path a) w2))) = Inr ()
         \<and> \<not> path_exists (files (snd (main ext a w))) d"
proof -
  let ?A = "assemble_step ext d (resolve_output_path a) w2"
  from convert_imgs_returns_scratch[OF assms(2)]
  have d: "d \<noteq> []" "is_dir (files w2) d" by (auto simp: scratch_of_def)
  note rm = delete_temp_imgs_removes[OF assemble_step_keeps_dir[OF d(2)] d(1), of ext d "resolve_output_path a"]
  have m: "main ext a w = (fst ?A, snd (delete_temp_imgs d (snd ?A)))"
    using assms rm
    by (cases "delete_temp_imgs d (snd ?A)"; cases ?A) (simp add: main_def Let_def try_finally_def)
  show ?thesis using m rm by simp
qed

text \<open>
  The example directory, once with an assembler that succeeds and once with one that
  raises: both runs end without the scratch directory.
\<close>

theorem cleanup_runs_after_assembly_witness:
  "main demo_ext (demo_args 0 0) demo_world = (Inr (), assembled_world)
   \<and> main failing_ext (demo_args 0 0) demo_world = (Inl AssemblerError, demo_world)
   \<and> \<not> path_exists (files (snd (main demo_ext (demo_args 0 0) demo_world))) (scratch_of [''imgs''])
   \<and> \<not> path_exists (files (snd (main failing_ext (demo_args 0 0) demo_world))) (scratch_of [''imgs''])"
proof -
  let ?w2 = "snd (convert_imgs demo_ext [''imgs''] None ''__temp'' 0 0 demo_world)"
  have c: "check_valid_args (args_imgs_path (demo_args 0 0)) (resolve_output_path (demo_args 0 0)) demo_world
             = (Inr (), demo_world)"
    by code_simp
  have v1: "convert_imgs demo_ext (args_imgs_path (demo_args 0 0)) None ''__temp''
             (args_brightness (demo_args 0 0)) (args_contrast (demo_args 0 0)) demo_world
           = (Inr (scratch_of [''imgs'']), ?w2)"
    by code_simp
  have v2: "convert_imgs failing_ext (args_imgs_path (demo_args 0 0)) None ''__temp''
             (args_brightness (demo_args 0 0)) (args_contrast (demo_args 0 0)) demo_world
           = (Inr (scratch_of [''imgs'']), ?w2)"
    by code_simp
  have a: "fst (assemble_step demo_ext (scratch_of [''imgs'']) (resolve_output_path (demo_args 0 0)) ?w2) = Inr ()"
    by code_simp
  have b: "fst (assemble_step failing_ext (scratch_of [''imgs'']) (resolve_output_path (demo_args 0 0)) ?w2)
             = Inl AssemblerError"
    by code_simp
  have s1: "snd (delete_temp_imgs (scratch_of [''imgs''])
              (snd (assemble_step demo_ext (scratch_of [''imgs'']) (resolve_output_path (demo_args 0 0)) ?w2)))
            = assembled_world"
    by code_simp
  have s2: "snd (delete_temp_imgs (scratch_of [''imgs''])
              (snd (assemble_step failing_ext (scratch_of [''imgs'']) (resolve_output_path (demo_args 0 0)) ?w2)))
            = demo_world"
    by code_simp
  show ?thesis
    using cleanup_runs_after_assembly[OF c v1] cleanup_runs_after_assembly[OF c v2]
    unfolding a b s1 s2 by (elim conjE) simp
qed

text \<open>
  Claim C2 says that the scratch directory is deleted on every exit path, a failure while
  converting included. \<open>convert_imgs\<close> is called before the \<open>try\<close> block: when it
  raises (the division by zero at contrast 131, or an entry named like an image that does
  not decode), \<open>main\<close> ends with the scratch directory, which this run created, still in
  place.
\<close>

theorem scratch_left_after_convert_failure:
  "\<not> path_exists (files demo_world) (scratch_of [''imgs''])
   \<and> main demo_ext (demo_args 0 131) demo_world
       = (Inl ZeroDivisionError, demo_world\<lparr>files := demo_files @ [(scratch_of [''imgs''], Dir)]\<rparr>)
   \<and> is_dir (files (snd (main demo_ext (demo_args 0 131) demo_world))) (scratch_of [''imgs''])
   \<and> \<not> path_exists (files corrupt_world) (scratch_of [''imgs''])
   \<and> fst (main demo_ext (demo_args 0 0) corrupt_world) = Inl AttributeError
   \<and> is_dir (files (snd (main demo_ext (demo_args 0 0) corrupt_world))) (scratch_of [''imgs''])"
  by code_simp

section \<open>Creating the scratch directory\<close>

lemma set_child_names: "set (child_names fs d) = {n. lookup fs (d @ [n]) \<noteq> None}"
proof -
  have "(\<exists>e\<in>set fs. fst e \<noteq> [] \<and> butlast (fst e) = d \<and> last (fst e) = n)
          \<longleftrightarrow> d @ [n] \<in> fst ` set fs" for n
  proof
    assume "\<exists>e\<in>set fs. fst e \<noteq> [] \<and> butlast (fst e) = d \<and> last (fst e) = n"
    then obtain e where e: "e \<in> set fs" "fst e \<noteq> []" "butlast (fst e) = d" "last (fst e) = n"
      by blast
    then have "fst e = d @ [n]" using append_butlast_last_id[of "fst e"] by simp
    with e(1) show "d @ [n] \<in> fst ` set fs" by force
  next
    assume "d @ [n] \<in> fst ` set fs"
    then obtain e where "e \<in> set fs" "fst e = d @ [n]" by auto
    then show "\<exists>e\<in>set fs. fst e \<noteq> [] \<and> butlast (fst e) = d \<and> last (fst e) = n"
      by (intro bexI[of _ e]) simp_all
  qed
  then have "{n. \<exists>e\<in>set fs. fst e \<noteq> [] \<and> butlast (fst e) = d \<and> last (fst e) = n}
               = {n. d @ [n] \<in> fst ` set fs}"
    by simp
  moreover have "set (child_names fs d)
               = {n. \<exists>e\<in>set fs. fst e \<noteq> [] \<and> butlast (fst e) = d \<and> last (fst e) = n}"
    by (auto simp: child_names_def)
  moreover have "{n. d @ [n] \<in> fst ` set fs} = {n. lookup fs (d @ [n]) \<noteq> None}"
    by (simp add: lookup_def map_of_eq_None_iff)
  ultimately show ?thesis by simp
qed

lemma ok_parent:
  assumes "file_system_ok fs" "lookup fs p \<noteq> None" "p \<noteq> []"
  shows "is_dir fs (butlast p)"
proof -
  from assms(2,3) obtain v where "map_of fs p = Some v" by (auto simp: lookup_def)
  then have "(p, v) \<in> set fs" by (rule map_of_SomeD)
  with assms(1) show ?thesis by (auto simp: file_system_ok_def list_all_iff)
qed

lemma no_children_outside_dirs:
  assumes "file_system_ok fs" "\<not> is_dir fs d"
  shows "lookup fs (d @ [n]) = None"
  using ok_parent[OF assms(1), of "d @ [n]"] assms(2) by (cases "lookup fs (d @ [n])") auto

lemma butlast_scratch_of [simp]: "butlast (scratch_of ip) = ip"
  by (simp add: scratch_of_def)

lemma scratch_of_neq [simp]: "scratch_of ip \<noteq> []" "scratch_of ip \<noteq> ip" "ip \<noteq> scratch_of ip"
  by (simp_all add: scratch_of_def)

lemma path_mkdir_existing_file:
  assumes "lookup fs p = Some (File c0)"
  shows "path_mkdir fs p True True = Inl FileExistsError"
  using assms
  by (simp add: path_mkdir.simps[of fs p] os_mkdir_def path_exists_def is_dir_def)

lemma path_mkdir_absent:
  assumes "lookup fs p = None" "is_dir fs (butlast p)"
  shows "path_mkdir fs p parents exist_ok = Inr (AList.update p Dir fs)"
  using assms
  by (simp add: path_mkdir.simps[of fs p] os_mkdir_def path_exists_def is_dir_def)

lemma path_unlink_file:
  assumes "lookup fs p = Some (File c0)"
  shows "path_unlink fs p = Inr (AList.delete p fs)"
  using assms by (simp add: path_unlink_def)


lemma make_output_dir_file:
  assumes "lookup (files w) (scratch_of ip) = Some (File c0)" "is_dir (files w) ip"
  shows "make_output_dir (scratch_of ip) w
           = (case confirm_overwrite (scratch_of ip) w of
                (Inl e, w1) \<Rightarrow> (Inl e, w1)
              | (Inr u, w1) \<Rightarrow>
                  (Inr (), w1\<lparr>files := AList.update (scratch_of ip) Dir
                                          (AList.delete (scratch_of ip) (files w))\<rparr>))"
proof -
  obtain r w1 where c: "confirm_overwrite (scratch_of ip) w = (r, w1)"
    by (cases "confirm_overwrite (scratch_of ip) w") auto
  have f: "files w1 = files w" using c by (rule confirm_overwrite_files)
  have d: "lookup (AList.delete (scratch_of ip) (files w)) (scratch_of ip) = None"
          "is_dir (AList.delete (scratch_of ip) (files w)) (butlast (scratch_of ip))"
    using assms(2) by (simp_all add: lookup_delete is_dir_def)
  show ?thesis
    using assms c f
    by (cases r)
       (simp_all add: make_output_dir_def path_mkdir_existing_file path_unlink_file
          path_mkdir_absent[OF d] lift_fs_def)
qed

lemma convert_imgs_mkdir_fails:
  assumes "make_output_dir (scratch_of ip) w = (Inl e, w1)"
  shows "convert_imgs ext ip None sfx b c w = (Inl e, w1)"
  using assms unfolding scratch_of_def by (simp add: convert_imgs_def)

lemma convert_imgs_after_mkdir:
  assumes "make_output_dir (scratch_of ip) w = (Inr u, w1)" "is_dir (files w1) ip"
  shows "convert_imgs ext ip None sfx b c w
           = (case convert_loop ext ip (scratch_of ip) sfx b c (child_names (files w1) ip) w1 of
                (Inl e, w2) \<Rightarrow> (Inl e, w2)
              | (Inr u', w2) \<Rightarrow> (Inr (scratch_of ip), w2))"
  using assms unfolding scratch_of_def by (simp add: convert_imgs_def iterdir_def is_dir_def Let_def)

text \<open>
  Claim C3 says that \<open>convert_imgs\<close> prompts whenever the scratch path exists, as a file
  or as a directory. For an existing directory \<open>mkdir(exist_ok=True)\<close> succeeds: no
  prompt is printed, no answer is read, and the old content of the directory stays.
\<close>

theorem existing_scratch_directory_not_prompted:
  "is_dir (files reused_scratch_world) (scratch_of [''imgs''])
   \<and> fst (convert_imgs demo_ext [''imgs''] None ''__temp'' 0 0 reused_scratch_world)
       = Inr (scratch_of [''imgs''])
   \<and> stdout (snd (convert_imgs demo_ext [''imgs''] None ''__temp'' 0 0 reused_scratch_world)) = []
   \<and> stdin (snd (convert_imgs demo_ext [''imgs''] None ''__temp'' 0 0 reused_scratch_world)) = [''n'']
   \<and> lookup (files (snd (convert_imgs demo_ext [''imgs''] None ''__temp'' 0 0 reused_scratch_world)))
         (scratch_of [''imgs''] @ [''old__temp.jpg''])
       = Some (File [9])"
  by code_simp

text \<open>
  Claim C3, amended. When the scratch path exists as a file, \<open>convert_imgs\<close> prompts
  before it proceeds: ``n'' ends the run with \<open>SystemExit 0\<close> and an unchanged file
  system; ``y'' or the empty answer removes the file and makes the scratch directory, which
  is empty when the conversion loop starts; any other answer repeats the prompt.
\<close>

theorem existing_scratch_file_is_confirmed:
  assumes ok: "file_system_ok (files w)"
      and dir: "is_dir (files w) ip"
      and isfile: "lookup (files w) (scratch_of ip) = Some (File c0)"
      and inp: "stdin w = ans # rest"
  shows "(says_no ans \<longrightarrow>
            convert_imgs ext ip None sfx b c w
              = (Inl (SystemExit 0),
                 w\<lparr>stdin := rest,
                   stdout := stdout w @ [Prompt (scratch_of ip), Print ''Operation canceled.'']\<rparr>))
       \<and> (says_yes ans \<longrightarrow>
            (let w1 = w\<lparr>files := AList.update (scratch_of ip) Dir
                                    (AList.delete (scratch_of ip) (files w)),
                        stdin := rest,
                        stdout := stdout w @ [Prompt (scratch_of ip)]\<rparr>
             in make_output_dir (scratch_of ip) w = (Inr (), w1)
                \<and> is_dir (files w1) (scratch_of ip)
                \<and> child_names (files w1) (scratch_of ip) = []
                \<and> convert_imgs ext ip None sfx b c w
                    = (case convert_loop ext ip (scratch_of ip) sfx b c (child_names (files w1) ip) w1 of
                         (Inl e, w2) \<Rightarrow> (Inl e, w2)
                       | (Inr u, w2) \<Rightarrow> (Inr (scratch_of ip), w2))))
       \<and> (\<not> says_yes ans \<and> \<not> says_no ans \<longrightarrow>
            convert_imgs ext ip None sfx b c w
              = convert_imgs ext ip None sfx b c
                  (w\<lparr>stdin := rest, stdout := stdout w @ [Prompt (scratch_of ip)]\<rparr>))"
proof (intro conjI impI)
  assume "says_no ans"
  then have "make_output_dir (scratch_of ip) w
               = (Inl (SystemExit 0),
                  w\<lparr>stdin := rest,
                    stdout := stdout w @ [Prompt (scratch_of ip), Print ''Operation canceled.'']\<rparr>)"
    using inp by (simp add: make_output_dir_file[OF isfile dir] confirm_overwrite_no[of w ans rest])
  then show "convert_imgs ext ip None sfx b c w
              = (Inl (SystemExit 0),
                 w\<lparr>stdin := rest,
                   stdout := stdout w @ [Prompt (scratch_of ip), Print ''Operation canceled.'']\<rparr>)"
    by (rule convert_imgs_mkdir_fails)
next
  assume yes: "says_yes ans"
  define w1 where "w1 = w\<lparr>files := AList.update (scratch_of ip) Dir
                                    (AList.delete (scratch_of ip) (files w)),
                        stdin := rest,
                        stdout := stdout w @ [Prompt (scratch_of ip)]\<rparr>"
  have m: "make_output_dir (scratch_of ip) w = (Inr (), w1)"
    using inp yes yes_not_no[OF yes]
    by (simp add: make_output_dir_file[OF isfile dir] confirm_overwrite_yes[of w ans rest] w1_def)
  have f: "files w1 = AList.update (scratch_of ip) Dir (AList.delete (scratch_of ip) (files w))"
    by (simp add: w1_def)
  have d1: "is_dir (files w1) (scratch_of ip)"
    by (simp add: f is_dir_def lookup_update)
  have d2: "is_dir (files w1) ip"
    using dir by (simp add: f is_dir_def lookup_update lookup_delete)
  have nd: "\<not> is_dir (files w) (scratch_of ip)" using isfile by (simp add: is_dir_def)
  have "lookup (files w1) (scratch_of ip @ [n]) = None" for n
    using no_children_outside_dirs[OF ok nd, of n]
    by (simp add: f lookup_update lookup_delete)
  then have "set (child_names (files w1) (scratch_of ip)) = {}"
    by (simp add: set_child_names)
  then have e: "child_names (files w1) (scratch_of ip) = []" by simp
  show "let w1 = w\<lparr>files := AList.update (scratch_of ip) Dir
                                    (AList.delete (scratch_of ip) (files w)),
                        stdin := rest,
                        stdout := stdout w @ [Prompt (scratch_of ip)]\<rparr>
             in make_output_dir (scratch_of ip) w = (Inr (), w1)
                \<and> is_dir (files w1) (scratch_of ip)
                \<and> child_names (files w1) (scratch_of ip) = []
                \<and> convert_imgs ext ip None sfx b c w
                    = (case convert_loop ext ip (scratch_of ip) sfx b c (child_names (files w1) ip) w1 of
                         (Inl e, w2) \<Rightarrow> (Inl e, w2)
                       | (Inr u, w2) \<Rightarrow> (Inr (scratch_of ip), w2))"
    unfolding Let_def w1_def[symmetric]
    using m d1 e convert_imgs_after_mkdir[OF m d2] by simp
next
  assume "\<not> says_yes ans \<and> \<not> says_no ans"
  then have k: "keep_asking ans" by (simp add: keep_asking_iff)
  let ?w = "w\<lparr>stdin := rest, stdout := stdout w @ [Prompt (scratch_of ip)]\<rparr>"
  have isfile': "lookup (files ?w) (scratch_of ip) = Some (File c0)" using isfile by simp
  have dir': "is_dir (files ?w) ip" using dir by simp
  have fw: "files ?w = files w" by simp
  have c: "confirm_overwrite (scratch_of ip) w = confirm_overwrite (scratch_of ip) ?w"
    using inp k by (rule confirm_overwrite_again)
  have "make_output_dir (scratch_of ip) w = make_output_dir (scratch_of ip) ?w"
    unfolding make_output_dir_file[OF isfile dir] make_output_dir_file[OF isfile' dir'] c fw
    by (rule refl)
  then show "convert_imgs ext ip None sfx b c w = convert_imgs ext ip None sfx b c ?w"
    unfolding scratch_of_def by (simp add: convert_imgs_def)
qed

text \<open>The example directory with a file at the scratch path, for three answers.\<close>

theorem existing_scratch_file_is_confirmed_witness:
  "convert_imgs demo_ext [''imgs''] None ''__temp'' 0 0 (scratch_file_world ['' N ''])
     = (Inl (SystemExit 0),
        (scratch_file_world ['' N ''])
          \<lparr>stdin := [],
            stdout := [Prompt (scratch_of [''imgs'']), Print ''Operation canceled.'']\<rparr>)
   \<and> child_names (AList.update (scratch_of [''imgs'']) Dir
                    (AList.delete (scratch_of [''imgs'']) (files (scratch_file_world [''Y'']))))
        (scratch_of [''imgs'']) = []
   \<and> convert_imgs demo_ext [''imgs''] None ''__temp'' 0 0 (scratch_file_world [''what'', ''y''])
     = convert_imgs demo_ext [''imgs''] None ''__temp'' 0 0
         ((scratch_file_world [''y''])\<lparr>stdout := [Prompt (scratch_of [''imgs''])]\<rparr>)"
proof -
  have ok: "file_system_ok (files (scratch_file_world xs))" for xs
    unfolding scratch_file_world_def by code_simp
  have dir: "is_dir (files (scratch_file_world xs)) [''imgs'']" for xs
    unfolding scratch_file_world_def by code_simp
  have isfile: "lookup (files (scratch_file_world xs)) (scratch_of [''imgs'']) = Some (File [9])" for xs
    unfolding scratch_file_world_def by code_simp
  have inp: "stdin (scratch_file_world (x # xs)) = x # xs" for x xs
    by (simp add: scratch_file_world_def)
  have n: "says_no '' N ''" by code_simp
  have y: "says_yes ''Y''" by code_simp
  have m: "\<not> says_yes ''what'' \<and> \<not> says_no ''what''" by code_simp
  show ?thesis
    using existing_scratch_file_is_confirmed[where w = "scratch_file_world ('' N '' # [])" and ip = "[''imgs'']"
              and ans = "'' N ''" and rest = "[]" and ext = demo_ext and sfx = "''__temp''"
              and b = 0 and c = 0, OF ok dir isfile inp]
          existing_scratch_file_is_confirmed[where w = "scratch_file_world (''Y'' # [])" and ip = "[''imgs'']"
              and ans = "''Y''" and rest = "[]" and ext = demo_ext and sfx = "''__temp''"
              and b = 0 and c = 0, OF ok dir isfile inp]
          existing_scratch_file_is_confirmed[where w = "scratch_file_world (''what'' # [''y''])" and ip = "[''imgs'']"
              and ans = "''what''" and rest = "[''y'']" and ext = demo_ext and sfx = "''__temp''"
              and b = 0 and c = 0, OF ok dir isfile inp]
          n y m
    by (simp add: Let_def scratch_file_world_def)
qed

section \<open>Entry names without a newline\<close>










section \<open>The content of the scratch directory\<close>




lemma staged_paths_Nil [simp]: "staged_paths outd sfx [] = {}"
  by (simp add: staged_paths_def)










section \<open>Which entries are images\<close>

lemma example_directory_is_staged:
  "valid_images (files demo_world) [''imgs''] = [''a.png'', ''b.jpg'']
   \<and> fst (convert_imgs demo_ext [''imgs''] None ''__temp'' 0 0 demo_world) = Inr (scratch_of [''imgs''])
   \<and> child_names (files (snd (convert_imgs demo_ext [''imgs''] None ''__temp'' 0 0 demo_world)))
         (scratch_of [''imgs''])
       = [''a__temp.jpg'', ''b__temp.jpg'']"
  by code_simp

text \<open>
  Claim C6 says that exactly the entries whose name ends with \<open>.png\<close> or \<open>.jpg\<close> are
  converted, each to its base name followed by \<open>__temp.jpg\<close>. The pattern ends with
  \<open>$\<close>, which also matches before a final newline, and \<open>.\<close> does not match a
  newline: an entry named \<open>a.png\<close> plus a newline is converted although its name does
  not end with an extension, and an entry whose name has a newline inside is stored under
  the part after the newline only. (For names without a newline \<open>get_img_name\<close> does
  what the claim says, \<open>get_img_name_plain\<close> above, and the claim's example directory is
  staged as it says, \<open>example_directory_is_staged\<close>.)
\<close>

theorem newline_names_are_converted:
  "\<not> suffix ''.png'' (''a.png'' @ [newline]) \<and> \<not> suffix ''.jpg'' (''a.png'' @ [newline])
   \<and> get_img_name (''a.png'' @ [newline]) = Some ''a''
   \<and> get_img_name (''x'' @ [newline] @ ''y.jpg'') = Some ''y''
   \<and> fst (convert_imgs demo_ext [''imgs''] None ''__temp'' 0 0 newline_world) = Inr (scratch_of [''imgs''])
   \<and> child_names (files (snd (convert_imgs demo_ext [''imgs''] None ''__temp'' 0 0 newline_world)))
         (scratch_of [''imgs''])
       = [''a__temp.jpg'', ''y__temp.jpg'']"
  by code_simp

section \<open>The output path\<close>

text \<open>
  Claim C7 says that the file actually written, the output path with its suffix forced to
  \<open>.pdf\<close>, is overwritten only after confirmation. \<open>check_valid_args\<close> tests the path
  as the user gave it: with \<open>-o foo.txt\<close>, no \<open>foo.txt\<close> and an existing \<open>foo.pdf\<close>,
  no prompt is printed, the waiting answer ``n'' is never read, and \<open>foo.pdf\<close> is
  replaced.
\<close>

theorem unconfirmed_overwrite_of_pdf:
  "lookup (files stale_pdf_world) [''foo.pdf''] = Some (File [9])
   \<and> \<not> path_exists (files stale_pdf_world) [''foo.txt'']
   \<and> get_output_path (resolve_output_path txt_output_args) = Inr [''foo.pdf'']
   \<and> fst (main demo_ext txt_output_args stale_pdf_world) = Inr ()
   \<and> stdout (snd (main demo_ext txt_output_args stale_pdf_world)) = []
   \<and> stdin (snd (main demo_ext txt_output_args stale_pdf_world)) = [''n'']
   \<and> lookup (files (snd (main demo_ext txt_output_args stale_pdf_world))) [''foo.pdf'']
       = Some (File [1, 2, 3, 4, 5])"
  by code_simp

end
